theory Spec2Isabelle
  imports Complex_Main "HOL-Library.Word"
begin

unbundle bit_operations_syntax

section \<open>Machine types of undervolt.c\<close>

text \<open>
  \<^verbatim>\<open>uint64_t\<close> is \<open>64 word\<close>, \<^verbatim>\<open>unsigned\<close> and \<^verbatim>\<open>int\<close> are \<open>32 word\<close>
  (read with \<open>unat\<close> and \<open>sint\<close>), \<^verbatim>\<open>off_t\<close> (with \<^verbatim>\<open>_FILE_OFFSET_BITS 64\<close>) holds the
  register addresses, all of them below \<open>2 ^ 63\<close>, and is kept as \<open>64 word\<close>.

  The divisor is a \<^verbatim>\<open>float\<close>. Every divisor the program computes from a register is
  \<open>m + l / 4 + 1\<close> with \<open>m < 32\<close> and \<open>l < 16\<close>: a multiple of a quarter below 64, which
  binary32 holds exactly, as it does every intermediate result. On multiples of a
  quarter of that size the C operations \<^verbatim>\<open>+\<close>, \<^verbatim>\<open>-\<close>, \<^verbatim>\<open>*\<close> round nothing in
  any precision from binary32 up, so they are the operations of the rationals, and the
  divisor is modelled as \<open>rat\<close>. Every statement below about a divisor's value is
  about such divisors. For another divisor of the command line C may round where the
  model does not, which changes the word written and nothing else. The conversions of
  a float to \<^verbatim>\<open>unsigned\<close> and to \<^verbatim>\<open>int\<close> truncate towards zero; C defines them only
  where the truncated value fits the target type, and the model wraps it there
  (\<open>word_of_int\<close>). NaN and the infinities are not values of the model.

  \<^verbatim>\<open>voltage\<close> computes \<^verbatim>\<open>1.550 - 0.0125 * SviVid\<close> in \<^verbatim>\<open>double\<close>; neither
  constant is a binary fraction, the result depends on how each operation rounds, and
  the function is not modelled. It is called for printing only.
\<close>

type_synonym u64 = "64 word"
type_synonym u32 = "32 word"
type_synonym divisor = rat

definition trunc_zero :: "rat \<Rightarrow> int" where
  \<comment> \<open>conversion of a floating value to an integer type: the fraction is discarded\<close>
  "trunc_zero x = (if 0 \<le> x then \<lfloor>x\<rfloor> else \<lceil>x\<rceil>)"

section \<open>Diagnostics and observable events\<close>

text \<open>
  What the program prints is kept as a list of events, one constructor for each
  \<^verbatim>\<open>printf\<close>, \<^verbatim>\<open>fprintf\<close> and \<^verbatim>\<open>perror\<close> of the source, carrying the values that are
  formatted (the voltage printed beside a Vid is \<^verbatim>\<open>voltage\<close> of that Vid and is left
  out). A call of \<^verbatim>\<open>rdmsr\<close> or \<^verbatim>\<open>wrmsr\<close> is an event of its own.
\<close>

datatype event =
    Usage
  | Perror_cpuinfo
  | Vendor_unsupported string | Vendor_checked
  | Family_unsupported | Family_checked
  | Model_unsupported | Model_checked
  | Cores_error | Cores_retrieved int
  | Did_trace u32 u32
  | Strange_msd u32
  | Strange_lsd u32
  | Parse_error
  | Pstate_out_of_bounds int
  | Duplicate_option int
  | Vid_to_set u32 divisor int
  | Invalid_argument
  | Status_read_failed
  | Beware
  | Pstate_not_valid int
  | Table_header
  | Table_read_failed
  | Table_row int u64 divisor
  | Edit_read_failed
  | Changing_vid int int u64
  | Old_div divisor
  | New_vid u64
  | New_div divisor
  | Newline
  | Edit_write_failed
  | Current_read_failed
  | Current_row int u64 u64 divisor
  | Call_rdmsr int u64
  | Call_wrmsr int u64 u64
  | Msr_trace_rd int u64
  | Msr_trace_wr int u64 u64
  | Msr_value u64 u64
  | Perror_open | Perror_seek | Perror_read | Perror_write | Perror_close

section \<open>P-state codec\<close>

text \<open>\<^verbatim>\<open>checkdid\<close>: complains about implausible sub-fields, rejects nothing.\<close>

definition checkdid :: "bool \<Rightarrow> u32 \<Rightarrow> u32 \<Rightarrow> event list" where
  "checkdid verbose msd lsd =
     (if verbose then [Did_trace msd lsd] else [])
     @ (if msd > 0x19 then [Strange_msd msd] else [])
     @ (if lsd > 3 then [Strange_lsd lsd] else [])"

text \<open>
  \<^verbatim>\<open>msrtodiv\<close>: \<^verbatim>\<open>didmsd = (val >> 4) & 0x1f; didlsd = val & 0xf;\<close> the assignment to
  \<^verbatim>\<open>unsigned\<close> keeps the low 32 bits. The result is the printed diagnostics and the
  divisor \<^verbatim>\<open>(float)didmsd + ((float)didlsd * 0.25) + 1\<close>.
\<close>

definition msrtodiv :: "bool \<Rightarrow> u64 \<Rightarrow> event list \<times> divisor" where
  "msrtodiv verbose val =
     (let didmsd = (ucast (drop_bit 4 val AND 0x1f) :: u32);
          didlsd = (ucast (val AND 0xf) :: u32)
      in (checkdid verbose didmsd didlsd,
          of_nat (unat didmsd) + of_nat (unat didlsd) * (1 / 4) + 1))"

text \<open>
  \<^verbatim>\<open>divtomsr\<close>: \<^verbatim>\<open>didmsd = div - 1; div -= (int)div; didlsd = div * 4;\<close> then
  \<^verbatim>\<open>*msr = (*msr & ~(uint64_t)0x1ff) | (didmsd << 4) | didlsd\<close>. The shift is a shift of
  an \<^verbatim>\<open>unsigned\<close>, done in 32 bits before the value is widened; \<^verbatim>\<open>didmsd\<close> is not
  masked to its five bits.
\<close>

definition divtomsr :: "bool \<Rightarrow> divisor \<Rightarrow> u64 \<Rightarrow> event list \<times> u64" where
  "divtomsr verbose dv msr =
     (let didmsd = (word_of_int (trunc_zero (dv - 1)) :: u32);
          dv' = dv - of_int (sint (word_of_int (trunc_zero dv) :: u32));
          didlsd = (word_of_int (trunc_zero (dv' * 4)) :: u32)
      in (checkdid verbose didmsd didlsd,
          (msr AND NOT 0x1ff) OR ucast (push_bit 4 didmsd) OR ucast didlsd))"

text \<open>
  The Vid field. The source has no function for it; these are the expressions of
  \<^verbatim>\<open>main\<close>, \<^verbatim>\<open>(oMSR[i] >> 9) & 0x7F\<close> for reading and
  \<^verbatim>\<open>(oMSR[i] & (~(0x7F << 9))) | (vidToSet[i] << 9)\<close> for writing, under the names the
  specification gives them. \<^verbatim>\<open>~(0x7F << 9)\<close> is computed as an \<^verbatim>\<open>int\<close> and
  sign-extended to 64 bits; \<^verbatim>\<open>vidToSet[i]\<close> is a \<^verbatim>\<open>uint64_t\<close> and is not masked.
\<close>

definition decodeVoltageIdentifier :: "u64 \<Rightarrow> u64" where
  "decodeVoltageIdentifier w = drop_bit 9 w AND 0x7F"

definition vid_clear_mask :: u64 where
  "vid_clear_mask = scast (NOT (push_bit 9 (0x7F :: u32)))"

definition encodeVoltageIdentifier :: "u64 \<Rightarrow> u64 \<Rightarrow> u64" where
  "encodeVoltageIdentifier w v = (w AND vid_clear_mask) OR push_bit 9 v"

text \<open>The current P-state printed by \<^verbatim>\<open>-c\<close>: \<^verbatim>\<open>(val >> 16) & 0x03\<close>.\<close>

definition current_pstate :: "u64 \<Rightarrow> u64" where
  "current_pstate val = drop_bit 16 val AND 0x03"


section \<open>The machine: globals, the msr devices, the trace\<close>

text \<open>
  The globals \<^verbatim>\<open>verbose\<close> and \<^verbatim>\<open>ncpu\<close>, the registers behind
  \<^verbatim>\<open>/dev/cpu/<cpu>/msr\<close>, what the operating system answers to each call on such a
  device (\<open>open_ok\<close> and the like are \<open>False\<close> where the call fails), the devices
  the process holds open (one entry, the cpu index, for each descriptor), and what
  has been printed. A write stores into the register of the cpu written to; whether
  the hardware mirrors it to the sibling cores is not part of the model.
\<close>

record world =
  verbose :: bool
  ncpu :: int
  regs :: "int \<Rightarrow> u64 \<Rightarrow> u64"
  open_ok :: "int \<Rightarrow> bool"
  seek_ok :: "int \<Rightarrow> u64 \<Rightarrow> bool"
  read_ok :: "int \<Rightarrow> u64 \<Rightarrow> bool"
  write_ok :: "int \<Rightarrow> u64 \<Rightarrow> bool"
  close_ok :: "int \<Rightarrow> bool"
  fds :: "int list"
  trace :: "event list"

definition emit :: "event \<Rightarrow> world \<Rightarrow> world" where
  "emit e w = w\<lparr>trace := trace w @ [e]\<rparr>"

definition emits :: "event list \<Rightarrow> world \<Rightarrow> world" where
  "emits es w = w\<lparr>trace := trace w @ es\<rparr>"

definition emit_verbose :: "event \<Rightarrow> world \<Rightarrow> world" where
  \<comment> \<open>\<^verbatim>\<open>if(verbose) printf(...)\<close>\<close>
  "emit_verbose e w = (if verbose w then emit e w else w)"

text \<open>
  How a function ends: \<^verbatim>\<open>exit(c)\<close> ends the process, \<^verbatim>\<open>return c\<close> ends the
  function, and otherwise control goes on with the local variables.
\<close>

datatype 'a flow = Exit int | Return int | Next 'a

definition and_then ::
  "'a flow \<times> world \<Rightarrow> ('a \<Rightarrow> world \<Rightarrow> 'b flow \<times> world) \<Rightarrow> 'b flow \<times> world" where
  "and_then r f =
     (case r of
        (Next a, w) \<Rightarrow> f a w
      | (Exit c, w) \<Rightarrow> (Exit c, w)
      | (Return c, w) \<Rightarrow> (Return c, w))"

fun for_each ::
  "'i list \<Rightarrow> ('i \<Rightarrow> world \<Rightarrow> unit flow \<times> world) \<Rightarrow> world \<Rightarrow> unit flow \<times> world" where
  "for_each [] body w = (Next (), w)"
| "for_each (i # rest) body w = and_then (body i w) (\<lambda>_. for_each rest body)"

section \<open>Register access\<close>

text \<open>
  \<^verbatim>\<open>rdmsr(cpu, msr, pVal)\<close>: open, seek, read eight bytes, close. The result is the
  returned \<^verbatim>\<open>int\<close> and what was stored through \<^verbatim>\<open>pVal\<close> (\<open>None\<close> when nothing
  was). Each failing step returns 1 at once; only the last step is \<^verbatim>\<open>close(fd)\<close>.
\<close>

definition rdmsr :: "int \<Rightarrow> u64 \<Rightarrow> world \<Rightarrow> (int \<times> u64 option) \<times> world" where
  "rdmsr cpu msr w0 =
     (let w1 = emit_verbose (Msr_trace_rd cpu msr) (emit (Call_rdmsr cpu msr) w0)
      in if \<not> open_ok w1 cpu then ((1, None), emit Perror_open w1)
         else let w2 = w1\<lparr>fds := cpu # fds w1\<rparr>
           in if \<not> seek_ok w2 cpu msr then ((1, None), emit Perror_seek w2)
              else if \<not> read_ok w2 cpu msr then ((1, None), emit Perror_read w2)
              else let v = regs w2 cpu msr;
                       w3 = emit_verbose (Msr_value msr v) w2;
                       w4 = w3\<lparr>fds := remove1 cpu (fds w3)\<rparr>
                in if \<not> close_ok w4 cpu then ((1, Some v), emit Perror_close w4)
                   else ((0, Some v), w4))"

text \<open>\<^verbatim>\<open>wrmsr(cpu, msr, val)\<close>: the same with \<^verbatim>\<open>write\<close>.\<close>

definition wrmsr :: "int \<Rightarrow> u64 \<Rightarrow> u64 \<Rightarrow> world \<Rightarrow> int \<times> world" where
  "wrmsr cpu msr val w0 =
     (let w1 = emit_verbose (Msr_trace_wr cpu msr val) (emit (Call_wrmsr cpu msr val) w0)
      in if \<not> open_ok w1 cpu then (1, emit Perror_open w1)
         else let w2 = w1\<lparr>fds := cpu # fds w1\<rparr>
           in if \<not> seek_ok w2 cpu msr then (1, emit Perror_seek w2)
              else if \<not> write_ok w2 cpu msr then (1, emit Perror_write w2)
              else let w3 = w2\<lparr>regs := (\<lambda>c a. if c = cpu \<and> a = msr then val else regs w2 c a)\<rparr>;
                       w4 = emit_verbose (Msr_value msr val) w3;
                       w5 = w4\<lparr>fds := remove1 cpu (fds w4)\<rparr>
                in if \<not> close_ok w5 cpu then (1, emit Perror_close w5)
                   else (0, w5))"

section \<open>Scanning \<^verbatim>\<open>/proc/cpuinfo\<close>\<close>

text \<open>
  The C library calls \<^verbatim>\<open>cpuIdCheck\<close> makes on a line. \<^verbatim>\<open>strncmp(line, lit,
  strlen(lit)) == 0\<close> holds when the line starts with the literal. A \<^verbatim>\<open>sscanf\<close>
  format is a list of directives: an ordinary character must be the next character of
  the input, white space in the format skips any white space of the input, \<^verbatim>\<open>%s\<close>
  skips white space and takes the characters up to the next white space, \<^verbatim>\<open>%d\<close>
  skips white space and takes an optional sign and decimal digits. Scanning stops at
  the first directive that fails; the result is the list of converted values. The
  source compares the returned count with 1 only, so the end-of-input result
  \<^verbatim>\<open>EOF\<close> and the count 0 are both an empty list here. A \<^verbatim>\<open>%d\<close> value that does
  not fit an \<^verbatim>\<open>int\<close> is kept as it is written.
\<close>

definition starts_with :: "string \<Rightarrow> string \<Rightarrow> bool" where
  "starts_with lit line = (take (length lit) line = lit)"

definition isspace :: "char \<Rightarrow> bool" where
  "isspace c = (c \<in> set [CHR '' '', CHR 0x09, CHR 0x0A, CHR 0x0B, CHR 0x0C, CHR 0x0D])"

definition isdigit :: "char \<Rightarrow> bool" where
  "isdigit c = (c \<in> set ''0123456789'')"

definition decimal :: "string \<Rightarrow> int" where
  "decimal ds = foldl (\<lambda>a c. 10 * a + (int (of_char c) - 48)) 0 ds"

definition scan_int :: "string \<Rightarrow> (int \<times> string) option" where
  "scan_int inp =
     (let (neg, r) =
            (case inp of
               [] \<Rightarrow> (False, [])
             | c # cs \<Rightarrow>
                 if c = CHR ''-'' then (True, cs)
                 else if c = CHR ''+'' then (False, cs)
                 else (False, inp));
          ds = takeWhile isdigit r
      in if ds = [] then None
         else Some (if neg then - decimal ds else decimal ds, dropWhile isdigit r))"

datatype directive = Lit char | Space | Conv_s | Conv_d

datatype scanned = Str string | Num int

fun sscanf :: "string \<Rightarrow> directive list \<Rightarrow> scanned list" where
  "sscanf inp [] = []"
| "sscanf inp (Space # fmt) = sscanf (dropWhile isspace inp) fmt"
| "sscanf inp (Lit c # fmt) =
     (case inp of
        [] \<Rightarrow> []
      | x # xs \<Rightarrow> if x = c then sscanf xs fmt else [])"
| "sscanf inp (Conv_s # fmt) =
     (let i = dropWhile isspace inp;
          tok = takeWhile (\<lambda>c. \<not> isspace c) i
      in if tok = [] then []
         else Str tok # sscanf (dropWhile (\<lambda>c. \<not> isspace c) i) fmt)"
| "sscanf inp (Conv_d # fmt) =
     (case scan_int (dropWhile isspace inp) of
        None \<Rightarrow> []
      | Some (n, rest) \<Rightarrow> Num n # sscanf rest fmt)"

definition fmt_vendor :: "directive list" where
  \<comment> \<open>\<^verbatim>\<open>"vendor_id : %s"\<close>\<close>
  "fmt_vendor = map Lit ''vendor_id'' @ [Space, Lit CHR '':'', Space, Conv_s]"

definition fmt_family :: "directive list" where
  \<comment> \<open>\<^verbatim>\<open>"cpu family : %d"\<close>\<close>
  "fmt_family =
     map Lit ''cpu'' @ [Space] @ map Lit ''family'' @ [Space, Lit CHR '':'', Space, Conv_d]"

definition fmt_model :: "directive list" where
  \<comment> \<open>\<^verbatim>\<open>"model : %d"\<close>\<close>
  "fmt_model = map Lit ''model'' @ [Space, Lit CHR '':'', Space, Conv_d]"

definition fmt_cores :: "directive list" where
  \<comment> \<open>\<^verbatim>\<open>"cpu cores : %d"\<close>\<close>
  "fmt_cores =
     map Lit ''cpu'' @ [Space] @ map Lit ''cores'' @ [Space, Lit CHR '':'', Space, Conv_d]"

text \<open>
  The locals of \<^verbatim>\<open>cpuIdCheck\<close> that live across lines: \<^verbatim>\<open>vendorChecked\<close>,
  \<^verbatim>\<open>familyChecked\<close> and the buffer \<^verbatim>\<open>s\<close>, which \<^verbatim>\<open>malloc\<close> hands out with
  contents of its own (an argument of the model) and only a successful \<^verbatim>\<open>%s\<close>
  overwrites.
\<close>

record scan_locals =
  vendorChecked :: bool
  familyChecked :: bool
  sbuf :: string

definition vendor_line :: "string \<Rightarrow> scan_locals \<Rightarrow> world \<Rightarrow> scan_locals flow \<times> world" where
  "vendor_line line l w =
     (if starts_with ''vendor_id'' line then
        (let s = (case sscanf line fmt_vendor of [Str t] \<Rightarrow> t | _ \<Rightarrow> sbuf l)
         in if \<not> starts_with ''AuthenticAMD'' s
            then (Return 1, emit (Vendor_unsupported s) w)
            else (Next (l\<lparr>vendorChecked := True, sbuf := s\<rparr>), emit_verbose Vendor_checked w))
      else (Next l, w))"

definition family_line :: "string \<Rightarrow> scan_locals \<Rightarrow> world \<Rightarrow> scan_locals flow \<times> world" where
  "family_line line l w =
     (if starts_with ''cpu family'' line then
        (case sscanf line fmt_family of
           [Num f] \<Rightarrow>
             if f \<noteq> 0x14 then (Return 1, emit Family_unsupported w)
             else (Next (l\<lparr>familyChecked := True\<rparr>), emit_verbose Family_checked w)
         | _ \<Rightarrow> (Return 1, emit Family_unsupported w))
      else (Next l, w))"

definition model_line :: "string \<Rightarrow> scan_locals \<Rightarrow> world \<Rightarrow> scan_locals flow \<times> world" where
  "model_line line l w =
     (if starts_with (''model'' @ [CHR 0x09, CHR 0x09] @ '':'') line then
        (case sscanf line fmt_model of
           [Num m] \<Rightarrow>
             if m \<noteq> 1 \<and> m \<noteq> 2 then (Return 1, emit Model_unsupported w)
             else (Next l, emit_verbose Model_checked w)
         | _ \<Rightarrow> (Return 1, emit Model_unsupported w))
      else (Next l, w))"

definition cores_line :: "string \<Rightarrow> scan_locals \<Rightarrow> world \<Rightarrow> scan_locals flow \<times> world" where
  "cores_line line l w =
     (if starts_with (''cpu cores'' @ [CHR 0x09] @ '':'') line then
        (case sscanf line fmt_cores of
           [Num n] \<Rightarrow>
             if n = 0 then (Exit 1, emit Cores_error (w\<lparr>ncpu := n\<rparr>))
             else (Next l, emit_verbose (Cores_retrieved n) (w\<lparr>ncpu := n\<rparr>))
         | _ \<Rightarrow> (Exit 1, emit Cores_error w))
      else (Next l, w))"

text \<open>
  The \<^verbatim>\<open>while\<close> loop over the lines \<^verbatim>\<open>getline\<close> delivers; it leaves at the first
  line after which vendor, family and core count are all known, and \<^verbatim>\<open>cpuIdCheck\<close>
  then returns 0, as it does at the end of the file.
\<close>

fun scan_cpuinfo :: "string list \<Rightarrow> scan_locals \<Rightarrow> world \<Rightarrow> unit flow \<times> world" where
  "scan_cpuinfo [] l w = (Return 0, w)"
| "scan_cpuinfo (line # rest) l w =
     and_then (vendor_line line l w) (\<lambda>l1 w1.
     and_then (family_line line l1 w1) (\<lambda>l2 w2.
     and_then (model_line line l2 w2) (\<lambda>l3 w3.
     and_then (cores_line line l3 w3) (\<lambda>l4 w4.
       if vendorChecked l4 \<and> familyChecked l4 \<and> ncpu w4 \<noteq> 0 then (Return 0, w4)
       else scan_cpuinfo rest l4 w4))))"

text \<open>
  \<^verbatim>\<open>cpuIdCheck\<close>. The file is the list of its lines, \<open>None\<close> when
  \<^verbatim>\<open>fopen\<close> fails. The result is \<open>Return 0\<close>, \<open>Return 1\<close> (vendor, family or model
  not supported) or \<open>Exit 1\<close>.
\<close>

definition cpuIdCheck :: "string list option \<Rightarrow> string \<Rightarrow> world \<Rightarrow> unit flow \<times> world" where
  "cpuIdCheck cpuinfo garbage w =
     (case cpuinfo of
        None \<Rightarrow> (Exit 1, emit Perror_cpuinfo w)
      | Some lines \<Rightarrow>
          scan_cpuinfo lines \<lparr>vendorChecked = False, familyChecked = False, sbuf = garbage\<rparr> w)"

section \<open>\<^verbatim>\<open>main\<close>\<close>

text \<open>
  The command line as \<^verbatim>\<open>getopt(argc, argv, "hcvrp:")\<close> hands it over, one value for
  each call that does not return -1. For \<^verbatim>\<open>-p\<close> the value holds what
  \<^verbatim>\<open>sscanf(optarg, "%1d:%i,%f", &pstateId, &vid, &div)\<close> returns and stores: the count,
  the P-state, the Vid (an \<^verbatim>\<open>int\<close>) and the divisor. \<open>Opt_unknown b\<close> is the
  \<^verbatim>\<open>default\<close> case, \<open>b\<close> telling whether \<^verbatim>\<open>optind != argc - 1\<close>.
\<close>

datatype opt = Opt_h | Opt_v | Opt_r | Opt_c | Opt_p int int u32 divisor | Opt_unknown bool

record locals =
  read_flag :: bool
  current_flag :: bool
  vidToSet :: "u64 list"
  divToSet :: "divisor list"
  div_var :: divisor

definition locals0 :: locals where
  "locals0 =
     \<lparr>read_flag = False, current_flag = False,
      vidToSet = [0, 0, 0, 0, 0, 0, 0, 0],
      divToSet = [0, 0, 0, 0, 0, 0, 0, 0],
      div_var = 0\<rparr>"

definition aMSR :: "u64 list" where
  "aMSR = [0xC0010064, 0xC0010065, 0xC0010066, 0xC0010067,
           0xC0010068, 0xC0010069, 0xC001006A, 0xC001006B]"

definition usage :: "world \<Rightarrow> 'a flow \<times> world" where
  \<comment> \<open>prints the text and calls \<^verbatim>\<open>exit(1)\<close>\<close>
  "usage w = (Exit 1, emit Usage w)"

text \<open>
  One turn of the option loop. \<^verbatim>\<open>div\<close> is set to 0.0 before the \<^verbatim>\<open>sscanf\<close> of
  \<^verbatim>\<open>-p\<close>, which stores a divisor only as its third conversion; \<^verbatim>\<open>vidToSet[pstateId]
  = vid\<close> widens the \<^verbatim>\<open>int\<close> to 64 bits with its sign.
\<close>

definition option_step :: "opt \<Rightarrow> locals \<Rightarrow> world \<Rightarrow> locals flow \<times> world" where
  "option_step opt l w =
     (case opt of
        Opt_h \<Rightarrow> usage w
      | Opt_v \<Rightarrow> (Next l, w\<lparr>verbose := True\<rparr>)
      | Opt_r \<Rightarrow> (Next (l\<lparr>read_flag := True\<rparr>), w)
      | Opt_c \<Rightarrow> (Next (l\<lparr>current_flag := True\<rparr>), w)
      | Opt_p n pstateId vid d \<Rightarrow>
          if n \<noteq> 2 \<and> n \<noteq> 3 then (Exit 1, emit Parse_error w)
          else let dv = (if n = 3 then d else 0)
            in if pstateId < 0 \<or> pstateId \<ge> 8
               then (Exit 1, emit (Pstate_out_of_bounds pstateId) w)
               else if vidToSet l ! nat pstateId \<noteq> 0
               then (Exit 1, emit (Duplicate_option pstateId) w)
               else (Next (l\<lparr>vidToSet := (vidToSet l)[nat pstateId := scast vid],
                               divToSet := (divToSet l)[nat pstateId := dv],
                               div_var := dv\<rparr>),
                     emit_verbose (Vid_to_set vid dv pstateId) w)
      | Opt_unknown b \<Rightarrow>
          if b then usage (emit Invalid_argument w) else usage w)"

fun getopt_loop :: "opt list \<Rightarrow> locals \<Rightarrow> world \<Rightarrow> locals flow \<times> world" where
  "getopt_loop [] l w = (Next l, w)"
| "getopt_loop (opt # rest) l w = and_then (option_step opt l w) (getopt_loop rest)"

text \<open>
  The status register \<^verbatim>\<open>0xC0010061\<close>: \<^verbatim>\<open>maxPstate = (val & 0x70) >> 4\<close>,
  \<^verbatim>\<open>minPstate = val & 0x07\<close>.
\<close>

definition maxPstate_of :: "u64 \<Rightarrow> int" where
  "maxPstate_of val = uint (drop_bit 4 (val AND 0x70))"

definition minPstate_of :: "u64 \<Rightarrow> int" where
  "minPstate_of val = uint (val AND 0x07)"

text \<open>The loop that checks the input: a message for each edit outside the range.\<close>

definition check_pstate :: "locals \<Rightarrow> int \<Rightarrow> int \<Rightarrow> int \<Rightarrow> world \<Rightarrow> unit flow \<times> world" where
  "check_pstate l minPstate maxPstate i w =
     (if vidToSet l ! nat i \<noteq> 0 \<and> (i > maxPstate \<or> i < minPstate)
      then (Next (), emit (Pstate_not_valid i) w)
      else (Next (), w))"

text \<open>The body of the \<^verbatim>\<open>-r\<close> loop.\<close>

definition read_pstate :: "int \<Rightarrow> world \<Rightarrow> unit flow \<times> world" where
  "read_pstate i w =
     (case rdmsr 0 (aMSR ! nat i) w of
        ((r, Some v), w1) \<Rightarrow>
          if r \<noteq> 0 then (Exit 1, emit Table_read_failed w1)
          else (Next (),
                emit (Table_row i (decodeVoltageIdentifier v) (snd (msrtodiv (verbose w1) v)))
                  (emits (fst (msrtodiv (verbose w1) v)) w1))
      | ((r, None), w1) \<Rightarrow> (Exit 1, emit Table_read_failed w1))"

text \<open>
  The inner loop that writes, for P-state \<open>i\<close> on cpu \<open>j\<close>. Between the
  \<^verbatim>\<open>rdmsr\<close> and the \<^verbatim>\<open>wrmsr\<close> the Vid of the word read is replaced, the divisor
  too when one was given, and the change is printed; the divisor printed as the new
  one is the variable \<^verbatim>\<open>div\<close>, which holds the divisor of the last \<^verbatim>\<open>-p\<close> option.
\<close>

definition edit_word :: "locals \<Rightarrow> int \<Rightarrow> int \<Rightarrow> u64 \<Rightarrow> world \<Rightarrow> u64 \<times> world" where
  "edit_word l i j v w1 =
     (let vid = decodeVoltageIdentifier v;
          val = encodeVoltageIdentifier v (vidToSet l ! nat i);
          w2 = emit (Changing_vid i j vid) w1;
          w3 = (if divToSet l ! nat i \<noteq> 0
                then emit (Old_div (snd (msrtodiv (verbose w2) v)))
                       (emits (fst (msrtodiv (verbose w2) v)) w2)
                else w2);
          w4 = emit (New_vid (vidToSet l ! nat i)) w3
      in if divToSet l ! nat i \<noteq> 0
         then let w5 = emit (New_div (div_var l)) w4
              in (snd (divtomsr (verbose w5) (divToSet l ! nat i) val),
                  emits (fst (divtomsr (verbose w5) (divToSet l ! nat i) val)) w5)
         else (val, emit Newline w4))"

definition write_pstate :: "locals \<Rightarrow> int \<Rightarrow> int \<Rightarrow> world \<Rightarrow> unit flow \<times> world" where
  "write_pstate l i j w =
     (case rdmsr j (aMSR ! nat i) w of
        ((r, Some v), w1) \<Rightarrow>
          if r \<noteq> 0 then (Exit 1, emit Edit_read_failed w1)
          else (case edit_word l i j v w1 of
                  (val, w5) \<Rightarrow>
                    (case wrmsr j (aMSR ! nat i) val w5 of
                       (r', w6) \<Rightarrow>
                         if r' \<noteq> 0 then (Exit 1, emit Edit_write_failed w6)
                         else (Next (), w6)))
      | ((r, None), w1) \<Rightarrow> (Exit 1, emit Edit_read_failed w1))"

definition write_pstates :: "locals \<Rightarrow> int \<Rightarrow> world \<Rightarrow> unit flow \<times> world" where
  "write_pstates l i w =
     (if vidToSet l ! nat i \<noteq> 0
      then for_each [0 .. ncpu w - 1] (write_pstate l i) w
      else (Next (), w))"

text \<open>The body of the \<^verbatim>\<open>-c\<close> loop.\<close>

definition current_row :: "int \<Rightarrow> u64 \<Rightarrow> bool \<Rightarrow> event list" where
  "current_row i val vb =
     fst (msrtodiv vb val)
     @ [Current_row i (current_pstate val) (decodeVoltageIdentifier val) (snd (msrtodiv vb val))]"

definition read_current :: "int \<Rightarrow> world \<Rightarrow> unit flow \<times> world" where
  "read_current i w =
     (case rdmsr i 0xC0010071 w of
        ((r, Some v), w1) \<Rightarrow>
          if r \<noteq> 0 then (Exit 1, emit Current_read_failed w1)
          else (Next (), emits (current_row i v (verbose w1)) w1)
      | ((r, None), w1) \<Rightarrow> (Exit 1, emit Current_read_failed w1))"

text \<open>The four loops of \<^verbatim>\<open>main\<close> that follow the reading of the status register.\<close>

definition check_input :: "locals \<Rightarrow> int \<Rightarrow> int \<Rightarrow> world \<Rightarrow> unit flow \<times> world" where
  "check_input l minPstate maxPstate w = for_each [0 .. 7] (check_pstate l minPstate maxPstate) w"

definition read_table :: "locals \<Rightarrow> int \<Rightarrow> int \<Rightarrow> world \<Rightarrow> unit flow \<times> world" where
  "read_table l minPstate maxPstate w =
     (if read_flag l
      then for_each [minPstate .. maxPstate] read_pstate (emit Table_header w)
      else (Next (), w))"

definition write_edits :: "locals \<Rightarrow> int \<Rightarrow> int \<Rightarrow> world \<Rightarrow> unit flow \<times> world" where
  "write_edits l minPstate maxPstate w = for_each [minPstate .. maxPstate] (write_pstates l) w"

definition report_current :: "locals \<Rightarrow> world \<Rightarrow> unit flow \<times> world" where
  "report_current l w =
     (if current_flag l
      then for_each [0 .. ncpu w - 1] read_current w
      else (Next (), w))"

text \<open>
  \<^verbatim>\<open>main\<close>, from the end of the option loop on. The value \<^verbatim>\<open>cpuIdCheck\<close> returns
  is not looked at; only its \<^verbatim>\<open>exit\<close> ends the run there.
\<close>

definition run_pstates :: "locals \<Rightarrow> world \<Rightarrow> unit flow \<times> world" where
  "run_pstates l w =
     (case rdmsr 0 0xC0010061 w of
        ((r, Some val), w1) \<Rightarrow>
          if r \<noteq> 0 then (Exit 1, emit Status_read_failed w1)
          else
            let maxPstate = maxPstate_of val;
                minPstate = minPstate_of val;
                w2 = (if minPstate \<noteq> 0 then emit_verbose Beware w1 else w1)
            in and_then (check_input l minPstate maxPstate w2) (\<lambda>_ w3.
               and_then (read_table l minPstate maxPstate w3) (\<lambda>_ w4.
               and_then (write_edits l minPstate maxPstate w4) (\<lambda>_ w5.
               and_then (report_current l w5) (\<lambda>_ w6.
               (Exit 0, w6)))))
      | ((r, None), w1) \<Rightarrow> (Exit 1, emit Status_read_failed w1))"

definition main_flow ::
  "opt list \<Rightarrow> string list option \<Rightarrow> string \<Rightarrow> world \<Rightarrow> unit flow \<times> world" where
  "main_flow args cpuinfo garbage w =
     and_then (getopt_loop args locals0 w) (\<lambda>l w1.
       case cpuIdCheck cpuinfo garbage w1 of
         (Exit c, w2) \<Rightarrow> (Exit c, w2)
       | (_, w2) \<Rightarrow> run_pstates l w2)"

text \<open>The exit status of the process and the machine it leaves.\<close>

definition main :: "opt list \<Rightarrow> string list option \<Rightarrow> string \<Rightarrow> world \<Rightarrow> int \<times> world" where
  "main args cpuinfo garbage w =
     (case main_flow args cpuinfo garbage w of
        (Exit c, w') \<Rightarrow> (c, w')
      | (Return c, w') \<Rightarrow> (c, w')
      | (Next _, w') \<Rightarrow> (0, w'))"

section \<open>Inputs for the examples\<close>

text \<open>
  A line of \<^verbatim>\<open>/proc/cpuinfo\<close> is the key, a tab (two after \<^verbatim>\<open>model\<close>), a colon,
  a blank, the value and a newline.
\<close>

definition cpuinfo_line :: "string \<Rightarrow> string \<Rightarrow> string" where
  "cpuinfo_line key v = key @ [CHR 0x09] @ '': '' @ v @ [CHR 0x0A]"

definition cpuinfo_intel :: "string list" where
  "cpuinfo_intel =
     [cpuinfo_line ''processor'' ''0'',
      cpuinfo_line ''vendor_id'' ''GenuineIntel'',
      cpuinfo_line ''cpu family'' ''6'',
      cpuinfo_line (''model'' @ [CHR 0x09]) ''42'',
      cpuinfo_line ''cpu cores'' ''2'']"

definition cpuinfo_amd :: "string list" where
  "cpuinfo_amd =
     [cpuinfo_line ''processor'' ''0'',
      cpuinfo_line ''vendor_id'' ''AuthenticAMD'',
      cpuinfo_line ''cpu family'' ''20'',
      cpuinfo_line (''model'' @ [CHR 0x09]) ''2'',
      cpuinfo_line ''model name'' ''AMD C-60 APU with Radeon(tm) HD Graphics'',
      cpuinfo_line ''cpu cores'' ''2'']"

text \<open>
  A machine on which every call on an msr device succeeds, whose status register
  \<^verbatim>\<open>0xC0010061\<close> holds \<open>status\<close> and whose other registers hold 0; and the same
  machine with \<^verbatim>\<open>lseek\<close>, \<^verbatim>\<open>read\<close> or \<^verbatim>\<open>write\<close> failing.
\<close>

definition sound_world :: "u64 \<Rightarrow> world" where
  "sound_world status =
     \<lparr>verbose = False, ncpu = 0,
      regs = (\<lambda>c a. if a = 0xC0010061 then status else 0),
      open_ok = (\<lambda>c. True), seek_ok = (\<lambda>c a. True), read_ok = (\<lambda>c a. True),
      write_ok = (\<lambda>c a. True), close_ok = (\<lambda>c. True),
      fds = [], trace = []\<rparr>"

definition seek_fails :: world where
  "seek_fails = (sound_world 0x20)\<lparr>seek_ok := (\<lambda>c a. False)\<rparr>"

definition io_fails :: world where
  "io_fails = (sound_world 0x20)\<lparr>read_ok := (\<lambda>c a. False), write_ok := (\<lambda>c a. False)\<rparr>"

text \<open>The calls of \<^verbatim>\<open>rdmsr\<close> and \<^verbatim>\<open>wrmsr\<close> in a trace.\<close>

fun is_msr_call :: "event \<Rightarrow> bool" where
  "is_msr_call (Call_rdmsr cpu msr) = True"
| "is_msr_call (Call_wrmsr cpu msr val) = True"
| "is_msr_call e = False"

definition msr_calls :: "event list \<Rightarrow> event list" where
  "msr_calls tr = filter is_msr_call tr"

section \<open>Relations between machines, for the proofs\<close>

text \<open>
  \<open>undisturbed w w'\<close>: from \<open>w\<close> to \<open>w'\<close> no \<^verbatim>\<open>rdmsr\<close> or \<^verbatim>\<open>wrmsr\<close> was called
  and neither the registers, the descriptors nor the devices changed. The option loop
  and \<^verbatim>\<open>cpuIdCheck\<close> are of this kind.
\<close>

definition undisturbed :: "world \<Rightarrow> world \<Rightarrow> bool" where
  "undisturbed w w' =
     (msr_calls (trace w') = msr_calls (trace w) \<and> regs w' = regs w \<and> fds w' = fds w
      \<and> open_ok w' = open_ok w \<and> seek_ok w' = seek_ok w \<and> read_ok w' = read_ok w
      \<and> write_ok w' = write_ok w \<and> close_ok w' = close_ok w)"

text \<open>
  What the option loop can end with, from the locals \<open>l\<close>: \<^verbatim>\<open>exit(1)\<close>, or locals in
  which every pending Vid of \<open>l\<close> is still pending.
\<close>

definition parsed :: "locals \<Rightarrow> locals flow \<Rightarrow> bool" where
  "parsed l r =
     (case r of
        Exit c \<Rightarrow> c = 1
      | Return c \<Rightarrow> False
      | Next l' \<Rightarrow> length (vidToSet l') = length (vidToSet l)
                  \<and> (\<forall>i. vidToSet l ! i = 0 \<or> vidToSet l' ! i \<noteq> 0))"


definition same_devices :: "world \<Rightarrow> world \<Rightarrow> bool" where
  "same_devices w w' =
     (verbose w' = verbose w \<and> ncpu w' = ncpu w
      \<and> open_ok w' = open_ok w \<and> seek_ok w' = seek_ok w \<and> read_ok w' = read_ok w
      \<and> write_ok w' = write_ok w \<and> close_ok w' = close_ok w)"

definition writes :: "event list \<Rightarrow> (int \<times> u64) set" where
  "writes tr = {(j, a). \<exists>v. Call_wrmsr j a v \<in> set tr}"

definition grows :: "(int \<times> u64) set \<Rightarrow> world \<Rightarrow> world \<Rightarrow> bool" where
  "grows A w w' =
     (same_devices w w' \<and> set (trace w) \<subseteq> set (trace w')
      \<and> writes (trace w') \<subseteq> writes (trace w) \<union> A)"


section \<open>Bit fields of the control word\<close>

lemma bit_vid_field: "bit (push_bit 9 (mask 7) :: u64) n \<longleftrightarrow> 9 \<le> n \<and> n \<le> 15"
  by (auto simp add: bit_push_bit_iff bit_mask_iff simp del: push_bit_eq_mult)

lemma vid_clear_mask_eq: "vid_clear_mask = NOT (push_bit 9 (mask 7))"
  unfolding vid_clear_mask_def by (simp add: mask_eq_exp_minus_1)

lemma bit_vid_clear_mask: "bit vid_clear_mask n \<longleftrightarrow> n < 64 \<and> \<not> (9 \<le> n \<and> n \<le> 15)"
  unfolding vid_clear_mask_eq by (simp only: bit_not_iff bit_vid_field) simp

lemma small_word_bits:
  fixes x :: "'a::len word"
  assumes "x < 2 ^ k"
  shows "bit x i \<Longrightarrow> i < k"
proof -
  from assms have "x AND mask k = x" by (rule less_mask_eq)
  then have "take_bit k x = x" by (simp add: take_bit_eq_mask)
  then show "bit x i \<Longrightarrow> i < k" by (metis bit_take_bit_iff)
qed

lemma bit_small_vid:
  fixes v :: u64
  assumes "v \<le> 0x7F"
  shows "bit v i \<Longrightarrow> i < 7"
proof -
  from assms have "v < 2 ^ 7" by (simp add: word_le_nat_alt word_less_nat_alt)
  then show "bit v i \<Longrightarrow> i < 7" by (rule small_word_bits)
qed


lemma bit_encode:
  fixes v :: u64
  assumes "v \<le> 0x7F"
  shows "bit (encodeVoltageIdentifier w v) n
           = (if 9 \<le> n \<and> n \<le> 15 then bit v (n - 9) else bit w n)"
  using bit_small_vid [OF assms, of "n - 9"]
  by (auto simp add: encodeVoltageIdentifier_def bit_or_iff bit_and_iff bit_vid_clear_mask
      bit_push_bit_iff dest: bit_imp_le_length)

lemma decode_encode:
  fixes v :: u64
  assumes "v \<le> 0x7F"
  shows "decodeVoltageIdentifier (encodeVoltageIdentifier w v) = v"
proof (rule bit_eqI)
  fix n
  have m: "(0x7F :: u64) = mask 7" by (simp add: mask_eq_exp_minus_1)
  show "bit (decodeVoltageIdentifier (encodeVoltageIdentifier w v)) n = bit v n"
    using bit_small_vid [OF assms, of n]
    unfolding decodeVoltageIdentifier_def m
    by (auto simp add: bit_and_iff bit_drop_bit_eq bit_mask_iff bit_encode [OF assms])
qed




text \<open>
  C4. For all 64-bit words \<open>w\<close> and all voltage identifiers in 0 to 127, decoding the
  voltage identifier of the word produced by encoding the identifier into \<open>w\<close> yields
  the identifier, and every bit of \<open>w\<close> outside positions 15 to 9 is unchanged by the
  encoding.
\<close>

theorem vid_round_trip:
  fixes w v :: u64
  assumes "v \<le> 0x7F"
  shows "decodeVoltageIdentifier (encodeVoltageIdentifier w v) = v
         \<and> (\<forall>n. \<not> (9 \<le> n \<and> n \<le> 15) \<longrightarrow> bit (encodeVoltageIdentifier w v) n = bit w n)"
  by (simp add: decode_encode [OF assms] bit_encode [OF assms])

theorem vid_round_trip_witness:
  "(0x28 :: u64) \<le> 0x7F
   \<and> decodeVoltageIdentifier (encodeVoltageIdentifier 0xFFFFFFFFFFFFFFFF 0x28) = 0x28
   \<and> bit (encodeVoltageIdentifier 0xFFFFFFFFFFFFFFFF 0x28) 16
   \<and> bit (encodeVoltageIdentifier 0xFFFFFFFFFFFFFFFF 0x28) 8"
proof -
  have h: "(0x28 :: u64) \<le> 0x7F" by simp
  have b: "bit (0xFFFFFFFFFFFFFFFF :: u64) 16" "bit (0xFFFFFFFFFFFFFFFF :: u64) 8"
    by (simp_all add: bit_numeral_word_iff)
  from vid_round_trip [OF h, of "0xFFFFFFFFFFFFFFFF"] h b show ?thesis by simp
qed

section \<open>The divisor\<close>

lemma did_fields:
  fixes m l :: u32 and w :: u64
  assumes m: "m < 2 ^ 5" and l: "l < 2 ^ 4"
  defines "r \<equiv> (w AND NOT (mask 9)) OR ucast (push_bit 4 m) OR ucast l"
  shows "drop_bit 4 r AND mask 5 = ucast m" and "r AND mask 4 = ucast l"
proof -
  have bm: "bit m i \<Longrightarrow> i < 5" for i using small_word_bits [OF m] .
  have bl: "bit l i \<Longrightarrow> i < 4" for i using small_word_bits [OF l] .
  show "drop_bit 4 r AND mask 5 = ucast m"
    by (rule bit_eqI)
      (auto simp add: r_def bit_and_iff bit_or_iff bit_not_iff bit_mask_iff bit_drop_bit_eq
        bit_push_bit_iff bit_ucast_iff bit_unsigned_iff dest: bm bl)
  show "r AND mask 4 = ucast l"
    by (rule bit_eqI)
      (auto simp add: r_def bit_and_iff bit_or_iff bit_not_iff bit_mask_iff bit_drop_bit_eq
        bit_push_bit_iff bit_ucast_iff bit_unsigned_iff dest: bm bl)
qed

lemma msrtodiv_arith:
  "snd (msrtodiv vb w) = of_nat ((unat w div 16) mod 32) + of_nat (unat w mod 16) / 4 + 1"
proof -
  have m: "(0x1f :: u64) = mask 5" "(0xf :: u64) = mask 4"
    by (simp_all add: mask_eq_exp_minus_1)
  have a: "unat (ucast (drop_bit 4 w AND 0x1f) :: u32) = (unat w div 16) mod 32"
    unfolding m
    by (simp add: unsigned_ucast_eq unat_div unat_mod take_bit_eq_mod drop_bit_eq_div
        flip: take_bit_eq_mask)
  have b: "unat (ucast (w AND 0xf) :: u32) = unat w mod 16"
    unfolding m
    by (simp add: unsigned_ucast_eq unat_div unat_mod take_bit_eq_mod drop_bit_eq_div
        flip: take_bit_eq_mask)
  show ?thesis unfolding msrtodiv_def Let_def snd_conv a b by simp
qed

lemma trunc_quarters:
  assumes "k \<le> 3"
  shows "trunc_zero (of_nat n + of_nat k / 4) = int n"
proof -
  have "\<lfloor>(of_nat n + of_nat k / 4 :: rat)\<rfloor> = int n"
  proof (rule floor_unique)
    show "of_int (int n) \<le> (of_nat n + of_nat k / 4 :: rat)" by simp
    have "(of_nat k :: rat) \<le> of_nat 3" using assms by (simp only: of_nat_le_iff)
    then have "(of_nat k :: rat) < 4" by simp
    then show "(of_nat n + of_nat k / 4 :: rat) < of_int (int n) + 1" by simp
  qed
  moreover have "(0::rat) \<le> of_nat n + of_nat k / 4" by simp
  ultimately show ?thesis by (simp add: trunc_zero_def)
qed

lemma divtomsr_fields:
  assumes n: "1 \<le> n" "n \<le> 32" and k: "k \<le> 3"
  shows "snd (divtomsr vb (of_nat n + of_nat k / 4) w)
     = (w AND NOT (mask 9)) OR ucast (push_bit 4 (word_of_nat (n - 1) :: u32))
         OR ucast (word_of_nat k :: u32)"
proof -
  let ?d = "of_nat n + of_nat k / 4 :: rat"
  from n have "?d - 1 = of_nat (n - 1) + of_nat k / 4" by (simp add: of_nat_diff)
  then have a: "trunc_zero (?d - 1) = int (n - 1)" by (simp only: trunc_quarters [OF k])
  have b: "trunc_zero ?d = int n" by (rule trunc_quarters [OF k])
  have "signed_take_bit 31 (int n) = int n"
    using n by (intro signed_take_bit_int_eq_self) simp_all
  then have c: "sint (word_of_int (int n) :: u32) = int n"
    unfolding signed_of_int by simp
  have d: "trunc_zero ((?d - of_int (int n)) * 4) = int k"
    by (simp add: trunc_zero_def)
  have m: "(0x1ff :: u64) = mask 9" by (simp add: mask_eq_exp_minus_1)
  show ?thesis
    unfolding divtomsr_def Let_def snd_conv a b c d m by simp
qed

lemma divisor_decode_encode:
  assumes n: "1 \<le> n" "n \<le> 32" and k: "k \<le> 3"
  shows "snd (msrtodiv vb (snd (divtomsr vb' (of_nat n + of_nat k / 4) w)))
           = of_nat n + of_nat k / 4"
proof -
  define m :: u32 where "m = word_of_nat (n - 1)"
  define l :: u32 where "l = word_of_nat k"
  define r where "r = (w AND NOT (mask 9)) OR ucast (push_bit 4 m) OR ucast l"
  have um: "unat m = n - 1" unfolding m_def unat_of_nat using n by simp
  have ul: "unat l = k" unfolding l_def unat_of_nat using k by simp
  have "m < 2 ^ 5" using um n by (simp add: word_less_nat_alt)
  moreover have "l < 2 ^ 4" using ul k by (simp add: word_less_nat_alt)
  ultimately have f: "drop_bit 4 r AND mask 5 = ucast m" "r AND mask 4 = ucast l"
    unfolding r_def by (rule did_fields)+
  have mk: "(0x1f :: u64) = mask 5" "(0xf :: u64) = mask 4"
    by (simp_all add: mask_eq_exp_minus_1)
  have "snd (msrtodiv vb r) = of_nat (unat m) + of_nat (unat l) * (1 / 4) + 1"
    unfolding msrtodiv_def Let_def snd_conv mk f
    by (simp add: unsigned_ucast_eq take_bit_word_eq_self)
  also have "\<dots> = of_nat n + of_nat k / 4"
    unfolding um ul using n by (simp add: of_nat_diff)
  finally show ?thesis
    unfolding divtomsr_fields [OF n k] r_def m_def l_def .
qed

text \<open>
  C5, as amended. For every 64-bit word \<open>w\<close> and every divisor \<open>d\<close> from 1.0 to 32.75
  of the form integer + {0, 0.25, 0.5, 0.75}, decoding the divisor of the word produced
  by encoding \<open>d\<close> into \<open>w\<close> yields exactly \<open>d\<close>.
\<close>

theorem divisor_round_trip:
  assumes "1 \<le> n" and "n \<le> 32" and "k \<le> 3"
  shows "snd (msrtodiv vb (snd (divtomsr vb' (of_nat n + of_nat k / 4) w)))
           = of_nat n + of_nat k / 4"
  using assms by (rule divisor_decode_encode)

theorem divisor_round_trip_witness:
  "(1::nat) \<le> 11 \<and> (11::nat) \<le> 32 \<and> (2::nat) \<le> 3
   \<and> snd (msrtodiv False (snd (divtomsr False (of_nat 11 + of_nat 2 / 4) 0xFFFF)))
       = of_nat 11 + of_nat 2 / 4"
  using divisor_round_trip [of 11 2 False False "0xFFFF"] by simp

text \<open>
  The claim as the specification has it, for every such divisor from 1.0 up, fails
  from 33.0 on: \<^verbatim>\<open>didmsd\<close> is then 32, which does not fit the five bits of the
  field; \<^verbatim>\<open>didmsd << 4\<close> sets bit 9 of the word, the lowest bit of the Vid, and the
  word decodes to the divisor 1.
\<close>

theorem divisor_round_trip_counterexample:
  "snd (divtomsr False 33 0) = 0x200
   \<and> snd (msrtodiv False (snd (divtomsr False 33 0))) = 1
   \<and> snd (msrtodiv False (snd (divtomsr False 33 0))) \<noteq> 33"
  by (simp add: msrtodiv_def divtomsr_def trunc_zero_def)

text \<open>
  C7. For every 64-bit word, the divisor decode takes DidMSD from bits 8 to 4 and
  DidLSD from bits 3 to 0 and returns DidMSD + DidLSD * 0.25 + 1; a word with
  DidMSD = 0x0A and DidLSD = 0x2 decodes to the divisor 11.5.
\<close>

theorem msrtodiv_value:
  "snd (msrtodiv vb w) = of_nat ((unat w div 2 ^ 4) mod 2 ^ 5) + of_nat (unat w mod 2 ^ 4) * (1 / 4) + 1
   \<and> (drop_bit 4 w AND 0x1f = 0x0A \<and> w AND 0xf = 0x2 \<longrightarrow> snd (msrtodiv vb w) = 23 / 2)"
proof (rule conjI)
  show "snd (msrtodiv vb w)
          = of_nat ((unat w div 2 ^ 4) mod 2 ^ 5) + of_nat (unat w mod 2 ^ 4) * (1 / 4) + 1"
    by (simp add: msrtodiv_arith)
  show "drop_bit 4 w AND 0x1f = 0x0A \<and> w AND 0xf = 0x2 \<longrightarrow> snd (msrtodiv vb w) = 23 / 2"
    by (simp add: msrtodiv_def)
qed

theorem msrtodiv_value_witness:
  "drop_bit 4 (0xFEA2 :: u64) AND 0x1f = 0x0A \<and> (0xFEA2 :: u64) AND 0xf = 0x2
   \<and> snd (msrtodiv True 0xFEA2) = 23 / 2
   \<and> snd (msrtodiv True 0xFEA2) = of_nat ((unat (0xFEA2 :: u64) div 2 ^ 4) mod 2 ^ 5)
        + of_nat (unat (0xFEA2 :: u64) mod 2 ^ 4) * (1 / 4) + 1"
proof -
  have h: "drop_bit 4 (0xFEA2 :: u64) AND 0x1f = 0x0A \<and> (0xFEA2 :: u64) AND 0xf = 0x2"
    by simp
  from msrtodiv_value [of True "0xFEA2"] h show ?thesis by blast
qed

section \<open>The current P-state\<close>




section \<open>Register access and the descriptor\<close>

lemma rdmsr_success_closes:
  assumes "open_ok w cpu" "seek_ok w cpu msr" "read_ok w cpu msr" "close_ok w cpu"
  shows "fst (rdmsr cpu msr w) = (0, Some (regs w cpu msr))"
    and "fds (snd (rdmsr cpu msr w)) = fds w"
  using assms by (simp_all add: rdmsr_def emit_def emit_verbose_def Let_def)

lemma rdmsr_failure_leaks:
  assumes "open_ok w cpu" and "\<not> seek_ok w cpu msr \<or> \<not> read_ok w cpu msr"
  shows "fst (rdmsr cpu msr w) = (1, None)"
    and "fds (snd (rdmsr cpu msr w)) = cpu # fds w"
  using assms by (auto simp add: rdmsr_def emit_def emit_verbose_def Let_def)

lemma wrmsr_failure_leaks:
  assumes "open_ok w cpu" and "\<not> seek_ok w cpu msr \<or> \<not> write_ok w cpu msr"
  shows "fst (wrmsr cpu msr val w) = 1"
    and "fds (snd (wrmsr cpu msr val w)) = cpu # fds w"
  using assms by (auto simp add: wrmsr_def emit_def emit_verbose_def Let_def)

text \<open>
  C8 says that \<^verbatim>\<open>rdmsr\<close> and \<^verbatim>\<open>wrmsr\<close> close the device they opened on every
  exit path. The source closes it on the last path only: where \<^verbatim>\<open>open\<close> succeeds
  and \<^verbatim>\<open>lseek\<close>, \<^verbatim>\<open>read\<close> or \<^verbatim>\<open>write\<close> fails, the function returns 1 and the
  descriptor of cpu 0 is still open. On a machine that held no descriptor before:
\<close>

theorem msr_failure_leaves_descriptor_open:
  "fds seek_fails = [] \<and> fds io_fails = []
   \<and> rdmsr 0 0xC0010061 seek_fails
       = ((1, None), seek_fails\<lparr>fds := [0], trace := [Call_rdmsr 0 0xC0010061, Perror_seek]\<rparr>)
   \<and> rdmsr 0 0xC0010061 io_fails
       = ((1, None), io_fails\<lparr>fds := [0], trace := [Call_rdmsr 0 0xC0010061, Perror_read]\<rparr>)
   \<and> wrmsr 0 0xC0010064 0x4A00 seek_fails
       = (1, seek_fails\<lparr>fds := [0], trace := [Call_wrmsr 0 0xC0010064 0x4A00, Perror_seek]\<rparr>)
   \<and> wrmsr 0 0xC0010064 0x4A00 io_fails
       = (1, io_fails\<lparr>fds := [0], trace := [Call_wrmsr 0 0xC0010064 0x4A00, Perror_write]\<rparr>)"
  by (simp add: rdmsr_def wrmsr_def seek_fails_def io_fails_def sound_world_def
      emit_def emit_verbose_def Let_def)

section \<open>The verdict of \<^verbatim>\<open>cpuIdCheck\<close>\<close>

lemmas scan_defs =
  cpuIdCheck_def vendor_line_def family_line_def model_line_def cores_line_def
  and_then_def starts_with_def fmt_vendor_def fmt_family_def fmt_model_def fmt_cores_def
  isspace_def isdigit_def scan_int_def decimal_def emit_def emit_verbose_def emits_def
  cpuinfo_line_def

lemma cpuIdCheck_intel:
  "cpuIdCheck (Some cpuinfo_intel) [] (sound_world status)
     = (Return 1, emit (Vendor_unsupported ''GenuineIntel'') (sound_world status))"
  by (simp add: scan_defs cpuinfo_intel_def sound_world_def)

lemma cpuIdCheck_amd:
  "cpuIdCheck (Some cpuinfo_amd) [] (sound_world status)
     = (Return 0, (sound_world status)\<lparr>ncpu := 2\<rparr>)"
  by (simp add: scan_defs cpuinfo_amd_def sound_world_def)

lemmas run_defs =
  and_then_def run_pstates_def check_input_def read_table_def write_edits_def
  report_current_def rdmsr_def wrmsr_def emit_def emit_verbose_def emits_def Let_def
  maxPstate_of_def minPstate_of_def check_pstate_def upto.simps locals0_def
  write_pstates_def write_pstate_def edit_word_def read_pstate_def read_current_def
  current_row_def
  aMSR_def encodeVoltageIdentifier_def decodeVoltageIdentifier_def vid_clear_mask_def
  msrtodiv_def divtomsr_def checkdid_def current_pstate_def msr_calls_def

text \<open>
  C1 says that after a fail verdict of the CPU-identity check the program ends with a
  non-zero status before any register access. \<^verbatim>\<open>main\<close> calls \<^verbatim>\<open>cpuIdCheck()\<close> as a
  statement and drops its value. With the \<^verbatim>\<open>/proc/cpuinfo\<close> of an Intel processor
  and no option, \<^verbatim>\<open>cpuIdCheck\<close> prints that the vendor is not supported and returns
  1; \<^verbatim>\<open>main\<close> then calls \<^verbatim>\<open>rdmsr(0, 0xC0010061, &val)\<close> and exits with status 0.
\<close>

theorem unsupported_cpu_reads_msr:
  "fst (cpuIdCheck (Some cpuinfo_intel) [] (sound_world 0x20)) = Return 1
   \<and> main [] (Some cpuinfo_intel) [] (sound_world 0x20)
       = (0, (sound_world 0x20)
               \<lparr>trace := [Vendor_unsupported ''GenuineIntel'', Call_rdmsr 0 0xC0010061]\<rparr>)"
proof -
  have "main [] (Some cpuinfo_intel) [] (sound_world 0x20)
       = (0, (sound_world 0x20)
               \<lparr>trace := [Vendor_unsupported ''GenuineIntel'', Call_rdmsr 0 0xC0010061]\<rparr>)"
    apply (simp add: main_def main_flow_def and_then_def cpuIdCheck_intel)
    apply (simp add: run_defs sound_world_def)
    done
  then show ?thesis by (simp add: cpuIdCheck_intel)
qed

section \<open>The option loop and duplicate edits\<close>

text \<open>
  The option loop calls neither \<^verbatim>\<open>rdmsr\<close> nor \<^verbatim>\<open>wrmsr\<close>, every way out of it
  other than its end is \<^verbatim>\<open>exit(1)\<close>, and a slot of \<^verbatim>\<open>vidToSet\<close> that is not 0 is
  never written again: the only assignment to a slot is guarded by the duplicate test.
\<close>

lemma undisturbed_refl: "undisturbed w w"
  by (simp add: undisturbed_def)

lemma undisturbed_trans: "undisturbed w w1 \<Longrightarrow> undisturbed w1 w2 \<Longrightarrow> undisturbed w w2"
  by (simp add: undisturbed_def)

lemma and_then_Next:
  "and_then r f = (Next x, w) \<Longrightarrow> \<exists>a w0. r = (Next a, w0) \<and> f a w0 = (Next x, w)"
  by (auto simp add: and_then_def split: prod.splits flow.splits)

lemma and_then_simps:
  "and_then (Next a, w) f = f a w"
  "and_then (Exit c, w) f = (Exit c, w)"
  "and_then (Return c, w) f = (Return c, w)"
  by (simp_all add: and_then_def)

lemma scast_vid_eq_0:
  fixes v :: u32
  shows "(scast v :: u64) = 0 \<longleftrightarrow> v = 0"
proof
  assume z: "(scast v :: u64) = 0"
  show "v = 0"
  proof (rule bit_eqI)
    fix n
    have "bit (scast v :: u64) n = False" unfolding z by simp
    then show "bit v n = bit (0 :: u32) n"
      by (cases "n < 32") (auto simp add: bit_word_scast_iff dest: bit_imp_le_length)
  qed
qed simp

lemma option_step_cases:
  assumes "option_step opt l w = (r, w')"
  shows "undisturbed w w'"
    and "r \<noteq> Return c"
    and "r = Exit c \<Longrightarrow> c = 1"
    and "r = Next l' \<Longrightarrow> length (vidToSet l') = length (vidToSet l)"
  using assms
  by (auto simp add: option_step_def usage_def emit_def emit_verbose_def undisturbed_def msr_calls_def Let_def
      split: opt.splits if_splits)

lemma option_step_keeps:
  assumes "option_step opt l w = (Next l', w')" and "vidToSet l ! i \<noteq> 0"
  shows "vidToSet l' ! i \<noteq> 0"
proof (cases opt)
  case (Opt_p n p v d)
  show ?thesis
  proof (cases "i = nat p")
    case True
    with assms Opt_p show ?thesis
      by (auto simp add: option_step_def Let_def split: if_splits)
  next
    case False
    with assms Opt_p show ?thesis
      by (auto simp add: option_step_def Let_def split: if_splits)
  qed
qed (use assms in \<open>auto simp add: option_step_def usage_def split: if_splits\<close>)

lemma getopt_loop_append:
  "getopt_loop (xs @ ys) l w = and_then (getopt_loop xs l w) (getopt_loop ys)"
proof (induction xs arbitrary: l w)
  case Nil
  show ?case by (simp add: and_then_simps)
next
  case (Cons x xs)
  show ?case
    by (cases "option_step x l w" rule: prod.exhaust [case_names Pair])
       (auto simp add: and_then_def Cons.IH split: flow.splits)
qed

lemma option_step_parsed:
  assumes "option_step opt l w = (r, w')"
  shows "undisturbed w w' \<and> parsed l r"
proof (cases r)
  case (Exit c)
  with option_step_cases(1,3) [OF assms] show ?thesis by (simp add: parsed_def)
next
  case (Return c)
  with option_step_cases(2) [OF assms, where c = c] show ?thesis by simp
next
  case (Next l')
  with option_step_cases(1,4) [OF assms] option_step_keeps assms show ?thesis
    by (auto simp add: parsed_def)
qed

lemma getopt_loop_parsed:
  "getopt_loop args l w = (r, w') \<Longrightarrow> undisturbed w w' \<and> parsed l r"
proof (induction args arbitrary: l w)
  case Nil
  then show ?case by (auto simp add: undisturbed_refl parsed_def)
next
  case (Cons a args)
  obtain r1 w1 where s: "option_step a l w = (r1, w1)" by (cases "option_step a l w")
  note st = option_step_parsed [OF s]
  from Cons.prems have e: "and_then (r1, w1) (getopt_loop args) = (r, w')"
    by (simp add: s)
  show ?case
  proof (cases r1)
    case (Exit c)
    with e st show ?thesis by (auto simp add: and_then_simps parsed_def)
  next
    case (Return c)
    with st show ?thesis by (simp add: parsed_def)
  next
    case (Next l1)
    with e have "getopt_loop args l1 w1 = (r, w')" by (simp add: and_then_simps)
    from Cons.IH [OF this] have a: "undisturbed w1 w'" and b: "parsed l1 r" by simp_all
    from st Next have c: "parsed l (Next l1)" by simp
    have "parsed l r"
      using b c by (cases r) (auto simp add: parsed_def)
    with a st show ?thesis by (auto intro: undisturbed_trans)
  qed
qed

lemma duplicate_step:
  assumes "n = 2 \<or> n = 3" "0 \<le> p" "p < 8" "vidToSet l ! nat p \<noteq> 0"
  shows "option_step (Opt_p n p v d) l w = (Exit 1, emit (Duplicate_option p) w)"
  using assms by (auto simp add: option_step_def)

lemma first_step:
  assumes "n = 2 \<or> n = 3" "0 \<le> p" "p < 8" "v \<noteq> 0" "length (vidToSet l) = 8"
    and "option_step (Opt_p n p v d) l w = (Next l', w')"
  shows "vidToSet l' ! nat p \<noteq> 0"
proof -
  from assms(2,3,5) have "nat p < length (vidToSet l)" by simp
  with assms show ?thesis
    by (auto simp add: option_step_def Let_def scast_vid_eq_0 split: if_splits)
qed

lemma locals0_length: "length (vidToSet locals0) = 8"
  by (simp add: locals0_def)

lemma duplicate_after:
  assumes n: "n = 2 \<or> n = 3" and p: "0 \<le> p" "p < 8" and z: "vidToSet l ! nat p \<noteq> 0"
  shows "\<exists>w'. getopt_loop (mid @ Opt_p n p v d # post) l w = (Exit 1, w') \<and> undisturbed w w'"
proof (cases "getopt_loop mid l w")
  case (Pair r1 w1)
  note g = getopt_loop_parsed [OF Pair]
  show ?thesis
  proof (cases r1)
    case (Exit c)
    with g Pair show ?thesis
      by (auto simp add: getopt_loop_append and_then_simps parsed_def)
  next
    case (Return c)
    with g show ?thesis by (simp add: parsed_def)
  next
    case (Next l1)
    with g z have "vidToSet l1 ! nat p \<noteq> 0" by (auto simp add: parsed_def)
    from duplicate_step [OF n p this]
    have "getopt_loop (Opt_p n p v d # post) l1 w1 = (Exit 1, emit (Duplicate_option p) w1)"
      by (simp add: and_then_simps)
    moreover have "undisturbed w1 (emit (Duplicate_option p) w1)"
      by (simp add: undisturbed_def emit_def msr_calls_def)
    ultimately show ?thesis using g Pair Next
      by (auto simp add: getopt_loop_append and_then_simps intro: undisturbed_trans)
  qed
qed

lemma duplicate_exits:
  assumes n1: "n1 = 2 \<or> n1 = 3" and n2: "n2 = 2 \<or> n2 = 3"
    and p: "0 \<le> p" "p < 8" and v: "v1 \<noteq> 0"
  shows "\<exists>w'. getopt_loop (pre @ Opt_p n1 p v1 d1 # mid @ Opt_p n2 p v2 d2 # post) locals0 w
            = (Exit 1, w') \<and> undisturbed w w'"
proof (cases "getopt_loop pre locals0 w")
  case (Pair r1 w1)
  note g = getopt_loop_parsed [OF Pair]
  let ?rest = "mid @ Opt_p n2 p v2 d2 # post"
  show ?thesis
  proof (cases r1)
    case (Exit c)
    with g Pair show ?thesis
      by (auto simp add: getopt_loop_append and_then_simps parsed_def)
  next
    case (Return c)
    with g show ?thesis by (simp add: parsed_def)
  next
    case (Next l1)
    with g have len: "length (vidToSet l1) = 8" by (simp add: parsed_def locals0_length)
    have split: "getopt_loop (pre @ Opt_p n1 p v1 d1 # ?rest) locals0 w
        = and_then (option_step (Opt_p n1 p v1 d1) l1 w1) (getopt_loop ?rest)"
      using Pair Next by (simp add: getopt_loop_append and_then_simps)
    obtain r2 w2 where s: "option_step (Opt_p n1 p v1 d1) l1 w1 = (r2, w2)"
      by (cases "option_step (Opt_p n1 p v1 d1) l1 w1")
    note st = option_step_parsed [OF s]
    from g st have u2: "undisturbed w w2" by (auto intro: undisturbed_trans)
    show ?thesis
    proof (cases r2)
      case (Exit c)
      with st s split u2 show ?thesis by (auto simp add: and_then_simps parsed_def)
    next
      case (Return c)
      with st show ?thesis by (simp add: parsed_def)
    next
      case (Next l2)
      from first_step [OF n1 p v len] s Next have "vidToSet l2 ! nat p \<noteq> 0" by simp
      from duplicate_after [OF n2 p this, of mid v2 d2 post w2]
      obtain w' where "getopt_loop ?rest l2 w2 = (Exit 1, w')" "undisturbed w2 w'" by blast
      with split s Next u2 show ?thesis
        by (auto simp add: and_then_simps intro: undisturbed_trans)
    qed
  qed
qed

lemma duplicate_blames_second:
  assumes n1: "n1 = 2 \<or> n1 = 3" and n2: "n2 = 2 \<or> n2 = 3"
    and p: "0 \<le> p" "p < 8" and v: "v1 \<noteq> 0"
    and g: "getopt_loop (pre @ Opt_p n1 p v1 d1 # mid) locals0 w = (Next l, w')"
  shows "getopt_loop (pre @ Opt_p n1 p v1 d1 # mid @ Opt_p n2 p v2 d2 # post) locals0 w
            = (Exit 1, emit (Duplicate_option p) w')"
proof -
  from g have "and_then (getopt_loop pre locals0 w) (getopt_loop (Opt_p n1 p v1 d1 # mid)) = (Next l, w')"
    by (simp add: getopt_loop_append)
  from and_then_Next [OF this] obtain l1 w1 where
    a: "getopt_loop pre locals0 w = (Next l1, w1)"
    and b: "getopt_loop (Opt_p n1 p v1 d1 # mid) l1 w1 = (Next l, w')" by blast
  from b have "and_then (option_step (Opt_p n1 p v1 d1) l1 w1) (getopt_loop mid) = (Next l, w')"
    by simp
  from and_then_Next [OF this] obtain l2 w2 where
    c: "option_step (Opt_p n1 p v1 d1) l1 w1 = (Next l2, w2)"
    and d: "getopt_loop mid l2 w2 = (Next l, w')" by blast
  from getopt_loop_parsed [OF a] have "length (vidToSet l1) = 8"
    by (simp add: parsed_def locals0_length)
  from first_step [OF n1 p v this c] have "vidToSet l2 ! nat p \<noteq> 0" .
  with getopt_loop_parsed [OF d] have "vidToSet l ! nat p \<noteq> 0" by (auto simp add: parsed_def)
  from duplicate_step [OF n2 p this]
  have "getopt_loop (Opt_p n2 p v2 d2 # post) l w' = (Exit 1, emit (Duplicate_option p) w')"
    by (simp add: and_then_simps)
  moreover have "pre @ Opt_p n1 p v1 d1 # mid @ Opt_p n2 p v2 d2 # post
      = (pre @ Opt_p n1 p v1 d1 # mid) @ (Opt_p n2 p v2 d2 # post)" by simp
  ultimately show ?thesis
    using g by (simp only: getopt_loop_append and_then_simps)
qed

lemma main_parse_exit:
  assumes "getopt_loop args locals0 w = (Exit c, w')"
  shows "main args cpuinfo garbage w = (c, w')"
  using assms by (simp add: main_def main_flow_def and_then_simps)

text \<open>
  C2, as amended. For every pair of \<^verbatim>\<open>-p\<close> edit requests targeting the same
  P-state index of which the first asks for a Vid other than 0, the run ends with
  exit status 1, no \<^verbatim>\<open>rdmsr\<close> or \<^verbatim>\<open>wrmsr\<close> call is made and no register is
  changed; and when the options before the second request are accepted, it is the
  second request that ends the run, with the duplicate-option message.
\<close>

theorem duplicate_edit_fatal:
  assumes "n1 = 2 \<or> n1 = 3" and "n2 = 2 \<or> n2 = 3" and "0 \<le> p" and "p < 8" and "v1 \<noteq> 0"
  shows "fst (main (pre @ Opt_p n1 p v1 d1 # mid @ Opt_p n2 p v2 d2 # post) cpuinfo garbage w) = 1
    \<and> msr_calls (trace (snd (main (pre @ Opt_p n1 p v1 d1 # mid @ Opt_p n2 p v2 d2 # post) cpuinfo garbage w)))
        = msr_calls (trace w)
    \<and> regs (snd (main (pre @ Opt_p n1 p v1 d1 # mid @ Opt_p n2 p v2 d2 # post) cpuinfo garbage w)) = regs w
    \<and> (\<forall>l w'. getopt_loop (pre @ Opt_p n1 p v1 d1 # mid) locals0 w = (Next l, w') \<longrightarrow>
          main (pre @ Opt_p n1 p v1 d1 # mid @ Opt_p n2 p v2 d2 # post) cpuinfo garbage w
            = (1, emit (Duplicate_option p) w'))"
proof -
  from duplicate_exits [OF assms, of pre d1 mid v2 d2 post w]
  obtain w' where e: "getopt_loop (pre @ Opt_p n1 p v1 d1 # mid @ Opt_p n2 p v2 d2 # post) locals0 w
            = (Exit 1, w')" and u: "undisturbed w w'" by blast
  have "main (pre @ Opt_p n1 p v1 d1 # mid @ Opt_p n2 p v2 d2 # post) cpuinfo garbage w = (1, w')"
    by (rule main_parse_exit [OF e])
  moreover have "\<forall>l w'. getopt_loop (pre @ Opt_p n1 p v1 d1 # mid) locals0 w = (Next l, w') \<longrightarrow>
          main (pre @ Opt_p n1 p v1 d1 # mid @ Opt_p n2 p v2 d2 # post) cpuinfo garbage w
            = (1, emit (Duplicate_option p) w')"
    using duplicate_blames_second [OF assms] main_parse_exit by blast
  ultimately show ?thesis using u by (simp add: undisturbed_def)
qed

theorem duplicate_edit_fatal_witness:
  "((2::int) = 2 \<or> (2::int) = 3) \<and> (0::int) \<le> 1 \<and> (1::int) < 8 \<and> (0x20 :: u32) \<noteq> 0
   \<and> main [Opt_p 2 1 0x20 0, Opt_r, Opt_p 2 1 0x25 0] (Some cpuinfo_amd) [] (sound_world 0x20)
       = (1, emit (Duplicate_option 1) (sound_world 0x20))"
proof -
  have g: "getopt_loop ([] @ Opt_p 2 1 0x20 0 # [Opt_r]) locals0 (sound_world 0x20)
      = (Next (locals0\<lparr>read_flag := True, vidToSet := [0, 0x20, 0, 0, 0, 0, 0, 0],
                         divToSet := [0, 0, 0, 0, 0, 0, 0, 0], div_var := 0\<rparr>), sound_world 0x20)"
    by (simp add: option_step_def locals0_def and_then_def emit_verbose_def sound_world_def)
  have h: "(2::int) = 2 \<or> (2::int) = 3" "(0::int) \<le> 1" "(1::int) < 8" "(0x20 :: u32) \<noteq> 0"
    by simp_all
  from duplicate_edit_fatal [OF h(1) h(1) h(2) h(3) h(4), where pre = "[]" and mid = "[Opt_r]"
      and post = "[]" and ?d1.0 = 0 and ?v2.0 = "0x25" and ?d2.0 = 0
      and cpuinfo = "Some cpuinfo_amd" and garbage = "[]" and w = "sound_world 0x20"] g h
  show ?thesis by simp
qed


text \<open>
  The claim as the specification has it, for every pair, fails when the first request
  asks for the Vid 0: \<^verbatim>\<open>vidToSet[1]\<close> stays 0, which also means that no edit is
  pending, and \<^verbatim>\<open>-p 1:0 -p 1:0x25\<close> is accepted; the run writes P-state 1 on both
  cores and exits with status 0.
\<close>

theorem duplicate_edit_counterexample:
  "fst (main [Opt_p 2 1 0 0, Opt_p 2 1 0x25 0] (Some cpuinfo_amd) [] (sound_world 0x20)) = 0
   \<and> msr_calls (trace (snd (main [Opt_p 2 1 0 0, Opt_p 2 1 0x25 0] (Some cpuinfo_amd) []
                                (sound_world 0x20))))
       = [Call_rdmsr 0 0xC0010061,
          Call_rdmsr 0 0xC0010065, Call_wrmsr 0 0xC0010065 0x4A00,
          Call_rdmsr 1 0xC0010065, Call_wrmsr 1 0xC0010065 0x4A00]"
proof -
  let ?l = "locals0\<lparr>vidToSet := [0, 0x25, 0, 0, 0, 0, 0, 0],
                     divToSet := [0, 0, 0, 0, 0, 0, 0, 0], div_var := 0\<rparr>"
  have a: "getopt_loop [Opt_p 2 1 0 0, Opt_p 2 1 0x25 0] locals0 (sound_world 0x20)
             = (Next ?l, sound_world 0x20)"
    by (simp add: option_step_def locals0_def and_then_def emit_verbose_def sound_world_def)
  have b: "main_flow [Opt_p 2 1 0 0, Opt_p 2 1 0x25 0] (Some cpuinfo_amd) [] (sound_world 0x20)
             = run_pstates ?l ((sound_world 0x20)\<lparr>ncpu := 2\<rparr>)"
    unfolding main_flow_def a by (simp add: and_then_def cpuIdCheck_amd)
  show ?thesis
    unfolding main_def b by (simp add: run_defs sound_world_def)
qed

section \<open>What the loops of \<^verbatim>\<open>main\<close> add to the trace\<close>

text \<open>
  Two facts about each loop body and, by induction on the list of indices, about each
  loop: which \<^verbatim>\<open>wrmsr\<close> calls it can add to the trace whatever the devices answer
  (\<open>grows\<close>), and that it runs to its end when every call on the devices succeeds.
\<close>

lemma grows_refl: "grows A w w"
  by (simp add: grows_def same_devices_def)



lemma grows_emit: "\<not> is_msr_call e \<Longrightarrow> grows A w (emit e w)"
  by (cases e) (auto simp add: grows_def same_devices_def emit_def writes_def)

lemma grows_emit_verbose: "\<not> is_msr_call e \<Longrightarrow> grows A w (emit_verbose e w)"
  by (simp add: emit_verbose_def grows_emit grows_refl)








































section \<open>\<^verbatim>\<open>cpuIdCheck\<close> touches no register\<close>
















section \<open>Edits outside the valid range\<close>






end
